theory Spec2Isabelle
  imports Main "HOL-Library.Char_ord" "HOL-Library.List_Lexorder" "HOL-Library.Sublist"
begin

section \<open>The attendance bot: data model\<close>

text \<open>
  The program is one \<^verbatim>\<open>interactionCreate\<close> handler over one SQLite table. The model keeps
  the handler's three branches (\<^verbatim>\<open>attend_add\<close>, \<^verbatim>\<open>attend_updatefile\<close>, \<^verbatim>\<open>attend_list\<close>) and
  the four SQL statements they issue, with the database passed in and returned. It covers
  the runs in which SQLite carries out every statement; when a statement fails, the
  handler's \<^verbatim>\<open>catch\<close> sends one generic message and writes nothing. How a reply is laid out
  as an embed or as text is not part of the model: a reply of the model is the one the
  handler sends when the embed can be built. The builder refuses a field value of more
  than 1024 characters, after the statement has run, and the caller then gets the generic
  message; the database is the one of the model in that case too.

  A Discord attachment as the handlers read it: \<^verbatim>\<open>proof.url\<close> and \<^verbatim>\<open>proof.name\<close>.
\<close>

record attachment =
  url :: string
  name :: string

text \<open>The caller, \<^verbatim>\<open>interaction.user\<close>: its \<^verbatim>\<open>id\<close> and its \<^verbatim>\<open>tag\<close>.\<close>

record user =
  uid :: string
  tag :: string

text \<open>
  One row of the table \<^verbatim>\<open>attendance\<close>. The column \<^verbatim>\<open>id INTEGER PRIMARY KEY AUTOINCREMENT\<close>
  is SQLite's rowid and is called \<open>rowid\<close> here; the nullable \<^verbatim>\<open>TEXT\<close> columns are options,
  \<open>None\<close> being SQL \<^verbatim>\<open>NULL\<close>.
\<close>

record row =
  rowid :: int
  userId :: string
  userName :: string
  subject :: string
  status :: string
  reason :: "string option"
  fileUrl :: "string option"
  fileName :: "string option"
  createdAt :: string

text \<open>
  The database file: the rows of \<^verbatim>\<open>attendance\<close> in the order they were inserted, and the
  entry that SQLite keeps for an \<^verbatim>\<open>AUTOINCREMENT\<close> table in \<^verbatim>\<open>sqlite_sequence\<close>, the largest
  rowid ever given out. The program has no \<^verbatim>\<open>DELETE\<close> and never writes the \<^verbatim>\<open>id\<close> column
  itself, so the number of rowids given out is the number of rows in the file, which the
  size of a database file keeps far below both \<open>2 ^ 53\<close> and \<open>2 ^ 63\<close>; rowids are therefore
  unbounded integers here.
\<close>

record db =
  attendance :: "row list"
  sqlite_sequence :: int

definition db_init :: db where
  "db_init = \<lparr>attendance = [], sqlite_sequence = 0\<rparr>"

text \<open>
  What a handler passes to \<^verbatim>\<open>interaction.reply\<close>, before rendering: the values of the embed
  fields of the two confirmations, the two fixed messages, and the rows of a listing.
\<close>

datatype reply =
    Saved int string string "string option" "string option"
  | NotFound
  | Updated int string string string
  | NoRecords
  | Listing "row list"

text \<open>
  The constraint \<^verbatim>\<open>PRIMARY KEY\<close> on \<^verbatim>\<open>id\<close>: no two rows of the table have the same rowid.
\<close>

definition primary_key :: "db \<Rightarrow> bool" where
  "primary_key d = distinct (map rowid (attendance d))"

section \<open>JavaScript's truthiness and \<^verbatim>\<open>||\<close>\<close>

text \<open>
  \<^verbatim>\<open>a || b\<close> is \<open>a\<close> when \<open>a\<close> is truthy and \<open>b\<close> otherwise. A string or \<^verbatim>\<open>null\<close> is truthy
  unless it is \<^verbatim>\<open>null\<close> or the empty string; an integer or \<^verbatim>\<open>null\<close> is truthy unless it is
  \<^verbatim>\<open>null\<close> or \<open>0\<close>.
\<close>

definition truthy_str :: "string option \<Rightarrow> bool" where
  "truthy_str v = (case v of None \<Rightarrow> False | Some s \<Rightarrow> s \<noteq> [])"

definition or_str :: "string option \<Rightarrow> string option \<Rightarrow> string option" where
  "or_str a b = (if truthy_str a then a else b)"

definition or_int :: "int option \<Rightarrow> int \<Rightarrow> int" where
  "or_int a b = (case a of None \<Rightarrow> b | Some n \<Rightarrow> if n \<noteq> 0 then n else b)"

section \<open>The SQL statements\<close>

text \<open>
  \<^verbatim>\<open>AUTOINCREMENT\<close>: the new rowid is one more than the largest rowid that ever existed in
  the table, which SQLite finds as the larger of the \<^verbatim>\<open>sqlite_sequence\<close> entry and the
  largest rowid now in the table.
\<close>

definition next_rowid :: "db \<Rightarrow> int" where
  "next_rowid d = Max (set (sqlite_sequence d # map rowid (attendance d))) + 1"

text \<open>
  \<^verbatim>\<open>INSERT INTO attendance (userId, userName, subject, status, reason, fileUrl, fileName,
  createdAt) VALUES (?, ?, ?, ?, ?, ?, ?, ?)\<close>; the result is \<^verbatim>\<open>this.lastID\<close> and the database.
\<close>

definition insert_attendance ::
  "string \<Rightarrow> string \<Rightarrow> string \<Rightarrow> string \<Rightarrow> string option \<Rightarrow> string option \<Rightarrow> string option
     \<Rightarrow> string \<Rightarrow> db \<Rightarrow> int \<times> db" where
  "insert_attendance uI uN subj stat reas fUrl fName cAt d =
     (let lastID = next_rowid d in
      (lastID,
       d\<lparr>attendance := attendance d @
            [\<lparr>rowid = lastID, userId = uI, userName = uN, subject = subj, status = stat,
              reason = reas, fileUrl = fUrl, fileName = fName, createdAt = cAt\<rparr>],
         sqlite_sequence := lastID\<rparr>))"

text \<open>
  \<^verbatim>\<open>SELECT * FROM attendance WHERE id = ? AND userId = ?\<close> through \<^verbatim>\<open>db.get\<close>: the first
  matching row, or \<^verbatim>\<open>undefined\<close>.
\<close>

definition select_owned :: "int \<Rightarrow> string \<Rightarrow> db \<Rightarrow> row option" where
  "select_owned i u d = find (\<lambda>r. rowid r = i \<and> userId r = u) (attendance d)"

text \<open>
  \<^verbatim>\<open>UPDATE attendance SET fileUrl = ?, fileName = ? WHERE id = ?\<close>: every row is visited,
  and a row whose \<^verbatim>\<open>id\<close> matches gets the two columns set.
\<close>

definition update_row :: "string \<Rightarrow> string \<Rightarrow> int \<Rightarrow> row \<Rightarrow> row" where
  "update_row fUrl fName i r =
     (if rowid r = i then r\<lparr>fileUrl := Some fUrl, fileName := Some fName\<rparr> else r)"

definition update_proof :: "string \<Rightarrow> string \<Rightarrow> int \<Rightarrow> db \<Rightarrow> db" where
  "update_proof fUrl fName i d =
     d\<lparr>attendance := map (update_row fUrl fName i) (attendance d)\<rparr>"

text \<open>
  SQLite's \<^verbatim>\<open>datetime\<close> on the text that \<^verbatim>\<open>toISOString\<close> writes,
  \<^verbatim>\<open>YYYY-MM-DDTHH:mm:ss.sssZ\<close>: the result is \<^verbatim>\<open>YYYY-MM-DD HH:MM:SS\<close>, the date, a space and
  the time of day without its fraction of a second.
\<close>

definition datetime :: "string \<Rightarrow> string" where
  "datetime s = take 10 s @ '' '' @ take 8 (drop 11 s)"

text \<open>
  \<^verbatim>\<open>ORDER BY key DESC\<close>: the rows by descending key. The rows reach the sorter in the order
  of the table scan, by rowid, and rows with equal keys leave it in that order: \<open>x\<close> goes in
  front of the first row whose key is not larger.
\<close>

fun insert_desc :: "('a \<Rightarrow> 'k::linorder) \<Rightarrow> 'a \<Rightarrow> 'a list \<Rightarrow> 'a list" where
  "insert_desc k x [] = [x]"
| "insert_desc k x (y # ys) = (if k y \<le> k x then x # y # ys else y # insert_desc k x ys)"

definition order_by_desc :: "('a \<Rightarrow> 'k::linorder) \<Rightarrow> 'a list \<Rightarrow> 'a list" where
  "order_by_desc k xs = foldr (insert_desc k) xs []"

text \<open>\<^verbatim>\<open>LIMIT n\<close>: the first \<open>n\<close> rows; a negative \<open>n\<close> is no limit.\<close>

definition sql_limit :: "int \<Rightarrow> 'a list \<Rightarrow> 'a list" where
  "sql_limit n xs = (if n < 0 then xs else take (nat n) xs)"

text \<open>
  \<^verbatim>\<open>SELECT * FROM attendance WHERE userId = ? ORDER BY datetime(createdAt) DESC LIMIT ?\<close>.
\<close>

definition select_recent :: "string \<Rightarrow> int \<Rightarrow> db \<Rightarrow> row list" where
  "select_recent u n d =
     sql_limit n (order_by_desc (\<lambda>r. datetime (createdAt r))
       (filter (\<lambda>r. userId r = u) (attendance d)))"

section \<open>The command handlers\<close>

text \<open>
  \<^verbatim>\<open>attend_add\<close>. The arguments are the four options as \<^verbatim>\<open>getString\<close> and \<^verbatim>\<open>getAttachment\<close>
  return them (\<open>None\<close> for an option that was left out) and the clock reading
  \<^verbatim>\<open>new Date().toISOString()\<close>.
\<close>

definition stored_reason :: "string option \<Rightarrow> string \<Rightarrow> string option" where
  "stored_reason reasonOpt stat =
     or_str reasonOpt (if stat = ''absent'' then Some ''Not provided'' else None)"

definition attend_add ::
  "user \<Rightarrow> string \<Rightarrow> string \<Rightarrow> string option \<Rightarrow> attachment option \<Rightarrow> string \<Rightarrow> db
     \<Rightarrow> reply \<times> db" where
  "attend_add usr subj stat reasonOpt proofOpt now d =
     (let reas = stored_reason reasonOpt stat;
          fUrl = map_option url proofOpt;
          fName = map_option name proofOpt;
          (lastID, d') = insert_attendance (uid usr) (tag usr) subj stat reas fUrl fName now d
      in (Saved lastID subj stat
            (if truthy_str reas then reas else None)
            (if truthy_str fUrl then or_str fName fUrl else None),
          d'))"

text \<open>\<^verbatim>\<open>attend_updatefile\<close>: both options are required, so neither is \<^verbatim>\<open>null\<close>.\<close>

definition attend_updatefile :: "user \<Rightarrow> int \<Rightarrow> attachment \<Rightarrow> db \<Rightarrow> reply \<times> db" where
  "attend_updatefile usr i proofAtt d =
     (case select_owned i (uid usr) d of
        None \<Rightarrow> (NotFound, d)
      | Some r \<Rightarrow>
          (Updated i (subject r) (status r) (name proofAtt),
           update_proof (url proofAtt) (name proofAtt) i d))"

text \<open>
  \<^verbatim>\<open>attend_list\<close>: \<^verbatim>\<open>let limit = getInteger("limit") || 5\<close>, then the two \<^verbatim>\<open>if\<close>s in the
  order of the source.
\<close>

definition effective_limit :: "int option \<Rightarrow> int" where
  "effective_limit limitOpt =
     (let limit = or_int limitOpt 5;
          limit = (if limit > 20 then 20 else limit);
          limit = (if limit < 1 then 1 else limit)
      in limit)"

definition attend_list :: "user \<Rightarrow> int option \<Rightarrow> db \<Rightarrow> reply \<times> db" where
  "attend_list usr limitOpt d =
     (let rows = select_recent (uid usr) (effective_limit limitOpt) d
      in if rows = [] then (NoRecords, d) else (Listing rows, d))"

section \<open>Runs of the bot\<close>

text \<open>
  A command as it reaches \<^verbatim>\<open>interactionCreate\<close>, with its options; an \<^verbatim>\<open>attend_add\<close> also
  carries the clock reading taken while it is handled.
\<close>

datatype command =
    Attend_add string string "string option" "attachment option" string
  | Attend_updatefile int attachment
  | Attend_list "int option"

fun interactionCreate :: "user \<Rightarrow> command \<Rightarrow> db \<Rightarrow> reply \<times> db" where
  "interactionCreate usr (Attend_add subj stat reasonOpt proofOpt now) d =
     attend_add usr subj stat reasonOpt proofOpt now d"
| "interactionCreate usr (Attend_updatefile i proofAtt) d = attend_updatefile usr i proofAtt d"
| "interactionCreate usr (Attend_list limitOpt) d = attend_list usr limitOpt d"

text \<open>
  Any number of users send commands in any order; the handler runs them one after the
  other. The result is the replies in that order and the final database.
\<close>

fun run :: "(user \<times> command) list \<Rightarrow> db \<Rightarrow> reply list \<times> db" where
  "run [] d = ([], d)"
| "run ((usr, c) # es) d =
     (let (r, d') = interactionCreate usr c d;
          (rs, d'') = run es d'
      in (r # rs, d''))"

text \<open>The ids that a list of replies reports as assigned, and the rows of a listing.\<close>

fun saved_ids :: "reply list \<Rightarrow> int list" where
  "saved_ids [] = []"
| "saved_ids (Saved i _ _ _ _ # rs) = i # saved_ids rs"
| "saved_ids (_ # rs) = saved_ids rs"

fun listed :: "reply \<Rightarrow> row list" where
  "listed (Listing rows) = rows"
| "listed _ = []"

section \<open>Facts about the statements and the handlers\<close>

subsection \<open>\<^verbatim>\<open>ORDER BY\<close> and \<^verbatim>\<open>LIMIT\<close>\<close>

text \<open>
  The sorter returns the rows it was given, in descending order of the key, and keeps the
  rows of one key in the order in which they came.
\<close>

lemma set_insert_desc: "set (insert_desc k x xs) = insert x (set xs)"
  by (induction xs) auto

lemma length_insert_desc: "length (insert_desc k x xs) = Suc (length xs)"
  by (induction xs) auto

lemma sorted_insert_desc:
  "sorted_wrt (\<lambda>a b. k b \<le> k a) xs \<Longrightarrow> sorted_wrt (\<lambda>a b. k b \<le> k a) (insert_desc k x xs)"
proof (induction xs)
  case Nil
  show ?case by simp
next
  case (Cons y ys)
  show ?case
  proof (cases "k y \<le> k x")
    case True
    with Cons.prems show ?thesis by (auto intro: order_trans)
  next
    case False
    with Cons show ?thesis by (auto simp: set_insert_desc)
  qed
qed

lemma filter_insert_desc:
  "filter (\<lambda>y. k y = c) (insert_desc k x xs) =
     (if k x = c then x # filter (\<lambda>y. k y = c) xs else filter (\<lambda>y. k y = c) xs)"
  by (induction xs) auto

lemma set_order_by_desc: "set (order_by_desc k xs) = set xs"
  by (induction xs) (simp_all add: order_by_desc_def set_insert_desc)

lemma length_order_by_desc: "length (order_by_desc k xs) = length xs"
  by (induction xs) (simp_all add: order_by_desc_def length_insert_desc)

lemma sorted_order_by_desc: "sorted_wrt (\<lambda>a b. k b \<le> k a) (order_by_desc k xs)"
  by (induction xs) (simp_all add: order_by_desc_def sorted_insert_desc)

lemma stable_order_by_desc:
  "filter (\<lambda>y. k y = c) (order_by_desc k xs) = filter (\<lambda>y. k y = c) xs"
  by (induction xs) (simp_all add: order_by_desc_def filter_insert_desc)

lemma sql_limit_prefix: "prefix (sql_limit n xs) xs"
  by (simp add: sql_limit_def take_is_prefix)

lemma length_sql_limit: "0 \<le> n \<Longrightarrow> length (sql_limit n xs) = min (nat n) (length xs)"
  by (simp add: sql_limit_def)

subsection \<open>The limit and the listing\<close>

lemma effective_limit_range: "1 \<le> effective_limit l \<and> effective_limit l \<le> 20"
  by (simp add: effective_limit_def Let_def)

lemma effective_limit_clamp:
  "effective_limit None = 5"
  "n \<noteq> 0 \<Longrightarrow> effective_limit (Some n) = max 1 (min 20 n)"
  by (simp_all add: effective_limit_def or_int_def Let_def)

lemma set_sql_limit: "set (sql_limit n xs) \<subseteq> set xs"
  by (rule set_mono_prefix) (rule sql_limit_prefix)

lemma select_recent_owner:
  assumes "r \<in> set (select_recent u n d)"
  shows "userId r = u"
proof -
  have "set (select_recent u n d) \<subseteq>
      set (order_by_desc (\<lambda>r. datetime (createdAt r))
             (filter (\<lambda>r. userId r = u) (attendance d)))"
    unfolding select_recent_def by (rule set_sql_limit)
  then have "r \<in> set (order_by_desc (\<lambda>r. datetime (createdAt r))
                 (filter (\<lambda>r. userId r = u) (attendance d)))"
    using assms by (rule subsetD)
  then show ?thesis by (simp add: set_order_by_desc)
qed

lemma listed_attend_list:
  "listed (fst (attend_list usr l d)) = select_recent (uid usr) (effective_limit l) d"
  by (simp add: attend_list_def Let_def)

lemma attend_list_db: "snd (attend_list usr l d) = d"
  by (simp add: attend_list_def Let_def)

subsection \<open>\<^verbatim>\<open>AUTOINCREMENT\<close> and the inserted row\<close>

lemma next_rowid_seq: "sqlite_sequence d < next_rowid d"
proof -
  have "sqlite_sequence d \<in> set (sqlite_sequence d # map rowid (attendance d))"
    by simp
  then have "sqlite_sequence d \<le> Max (set (sqlite_sequence d # map rowid (attendance d)))"
    by (rule Max_ge [OF finite_set])
  then show ?thesis unfolding next_rowid_def by linarith
qed

lemma next_rowid_rows:
  assumes "r \<in> set (attendance d)"
  shows "rowid r < next_rowid d"
proof -
  from assms have "rowid r \<in> set (sqlite_sequence d # map rowid (attendance d))"
    by simp
  then have "rowid r \<le> Max (set (sqlite_sequence d # map rowid (attendance d)))"
    by (rule Max_ge [OF finite_set])
  then show ?thesis unfolding next_rowid_def by linarith
qed

lemma next_rowid_fresh: "next_rowid d \<notin> rowid ` set (attendance d)"
proof
  assume "next_rowid d \<in> rowid ` set (attendance d)"
  then obtain r where "r \<in> set (attendance d)" and "rowid r = next_rowid d" by auto
  with next_rowid_rows [of r d] show False by simp
qed

lemma attend_add_eq:
  "attend_add usr subj stat reasonOpt proofOpt now d =
     (Saved (next_rowid d) subj stat
        (if truthy_str (stored_reason reasonOpt stat) then stored_reason reasonOpt stat else None)
        (if truthy_str (map_option url proofOpt)
         then or_str (map_option name proofOpt) (map_option url proofOpt) else None),
      d\<lparr>attendance := attendance d @
           [\<lparr>rowid = next_rowid d, userId = uid usr, userName = tag usr, subject = subj,
             status = stat, reason = stored_reason reasonOpt stat,
             fileUrl = map_option url proofOpt, fileName = map_option name proofOpt,
             createdAt = now\<rparr>],
        sqlite_sequence := next_rowid d\<rparr>)"
  by (simp add: attend_add_def insert_attendance_def Let_def)

subsection \<open>The lookup and the update\<close>

lemma select_owned_None:
  "select_owned i u d = None \<longleftrightarrow> \<not> (\<exists>r \<in> set (attendance d). rowid r = i \<and> userId r = u)"
  by (auto simp: select_owned_def find_None_iff)

lemma rowid_update_row [simp]: "rowid (update_row a b i r) = rowid r"
  by (simp add: update_row_def)

lemma userId_update_row [simp]: "userId (update_row a b i r) = userId r"
  by (simp add: update_row_def)

lemma update_row_twice [simp]:
  "update_row a2 b2 i (update_row a1 b1 i r) = update_row a2 b2 i r"
  by (simp add: update_row_def)

lemma update_row_other: "rowid r \<noteq> i \<Longrightarrow> update_row a b i r = r"
  by (simp add: update_row_def)

lemma update_row_hit:
  "rowid r = i \<Longrightarrow> update_row a b i r = r\<lparr>fileUrl := Some a, fileName := Some b\<rparr>"
  by (simp add: update_row_def)

lemma attendance_update_proof:
  "attendance (update_proof a b i d) = map (update_row a b i) (attendance d)"
  by (simp add: update_proof_def)

lemma rowids_update_proof:
  "map rowid (attendance (update_proof a b i d)) = map rowid (attendance d)"
  by (simp add: attendance_update_proof comp_def)

lemma select_owned_update:
  "select_owned i u (update_proof a b j d) = None \<longleftrightarrow> select_owned i u d = None"
  by (simp add: select_owned_None attendance_update_proof)

lemma update_proof_twice:
  "update_proof a2 b2 i (update_proof a1 b1 i d) = update_proof a2 b2 i d"
  by (simp add: update_proof_def comp_def)

lemma attend_updatefile_found:
  "select_owned i (uid usr) d \<noteq> None \<Longrightarrow>
     snd (attend_updatefile usr i p d) = update_proof (url p) (name p) i d"
  by (auto simp: attend_updatefile_def)

lemma update_proof_sets_proof:
  assumes "r \<in> set (attendance (update_proof a b i d))" and "rowid r = i"
  shows "fileUrl r = Some a \<and> fileName r = Some b"
proof -
  from assms(1) obtain x where x: "x \<in> set (attendance d)" and r: "r = update_row a b i x"
    unfolding attendance_update_proof set_map by blast
  from r assms(2) have "rowid x = i" by simp
  with r show ?thesis by (simp add: update_row_hit)
qed

lemma update_proof_keeps_rowids:
  "rowid ` set (attendance (update_proof a b i d)) = rowid ` set (attendance d)"
  using rowids_update_proof [of a b i d] by (metis set_map)

lemma update_one:
  "distinct (map rowid xs) \<Longrightarrow> k < length xs \<Longrightarrow> rowid (xs ! k) = i \<Longrightarrow>
     map (update_row a b i) xs = xs[k := update_row a b i (xs ! k)]"
proof (induction xs arbitrary: k)
  case Nil
  then show ?case by simp
next
  case (Cons x xs)
  show ?case
  proof (cases k)
    case 0
    with Cons.prems have "i \<notin> rowid ` set xs" by simp
    then have "\<forall>r \<in> set xs. rowid r \<noteq> i" by blast
    then have "map (update_row a b i) xs = xs"
      by (simp add: update_row_other map_idI)
    with 0 show ?thesis by simp
  next
    case (Suc j)
    with Cons.prems have "rowid x \<noteq> i" by auto
    with Suc Cons show ?thesis by (simp add: update_row_other)
  qed
qed

subsection \<open>The primary key holds in every database the bot produces\<close>

lemma primary_key_init: "primary_key db_init"
  by (simp add: primary_key_def db_init_def)

lemma primary_key_add:
  "primary_key d \<Longrightarrow> primary_key (snd (attend_add usr subj stat reasonOpt proofOpt now d))"
  by (simp add: primary_key_def attend_add_eq next_rowid_fresh)

lemma primary_key_updatefile:
  "primary_key d \<Longrightarrow> primary_key (snd (attend_updatefile usr i p d))"
  by (simp add: primary_key_def attend_updatefile_def rowids_update_proof
      split: option.splits)

lemma primary_key_interaction:
  "primary_key d \<Longrightarrow> primary_key (snd (interactionCreate usr c d))"
  by (cases c) (simp_all add: primary_key_add primary_key_updatefile attend_list_db)

lemma primary_key_run: "primary_key d \<Longrightarrow> primary_key (snd (run es d))"
proof (induction es arbitrary: d)
  case Nil
  then show ?case by simp
next
  case (Cons e es)
  obtain usr c where e: "e = (usr, c)" by (cases e)
  have "primary_key (snd (interactionCreate usr c d))"
    using Cons.prems by (rule primary_key_interaction)
  then have "primary_key (snd (run es (snd (interactionCreate usr c d))))"
    by (rule Cons.IH)
  then show ?case by (simp add: e split_beta Let_def)
qed

subsection \<open>\<^verbatim>\<open>sqlite_sequence\<close> bounds the ids reported in a run\<close>

lemma seq_interaction:
  "sqlite_sequence d \<le> sqlite_sequence (snd (interactionCreate usr c d))"
proof (cases c)
  case (Attend_add subj stat ro po now)
  with next_rowid_seq [of d] show ?thesis by (simp add: attend_add_eq)
next
  case (Attend_updatefile i p)
  then show ?thesis
    by (simp add: attend_updatefile_def update_proof_def split: option.splits)
next
  case (Attend_list l)
  then show ?thesis by (simp add: attend_list_db)
qed

lemma saved_interaction:
  "j \<in> set (saved_ids [fst (interactionCreate usr c d)]) \<Longrightarrow>
     j \<le> sqlite_sequence (snd (interactionCreate usr c d))"
proof (cases c)
  case (Attend_add subj stat ro po now)
  assume "j \<in> set (saved_ids [fst (interactionCreate usr c d)])"
  with Attend_add show ?thesis by (simp add: attend_add_eq)
next
  case (Attend_updatefile i p)
  assume "j \<in> set (saved_ids [fst (interactionCreate usr c d)])"
  with Attend_updatefile show ?thesis
    by (simp add: attend_updatefile_def split: option.splits)
next
  case (Attend_list l)
  assume "j \<in> set (saved_ids [fst (interactionCreate usr c d)])"
  with Attend_list show ?thesis by (simp add: attend_list_def Let_def split: if_splits)
qed

lemma saved_ids_Cons: "saved_ids (r # rs) = saved_ids [r] @ saved_ids rs"
  by (cases r) simp_all

lemma run_Cons:
  "run ((usr, c) # es) d =
     (fst (interactionCreate usr c d) # fst (run es (snd (interactionCreate usr c d))),
      snd (run es (snd (interactionCreate usr c d))))"
  by (simp add: split_beta Let_def)

lemma run_seq:
  "sqlite_sequence d \<le> sqlite_sequence (snd (run es d)) \<and>
     (\<forall>j \<in> set (saved_ids (fst (run es d))). j \<le> sqlite_sequence (snd (run es d)))"
proof (induction es arbitrary: d)
  case Nil
  show ?case by simp
next
  case (Cons e es)
  obtain usr c where e: "e = (usr, c)" by (cases e)
  let ?d1 = "snd (interactionCreate usr c d)"
  have ih: "sqlite_sequence ?d1 \<le> sqlite_sequence (snd (run es ?d1)) \<and>
     (\<forall>j \<in> set (saved_ids (fst (run es ?d1))). j \<le> sqlite_sequence (snd (run es ?d1)))"
    by (rule Cons.IH)
  have s1: "sqlite_sequence d \<le> sqlite_sequence ?d1" by (rule seq_interaction)
  have "\<forall>j \<in> set (saved_ids [fst (interactionCreate usr c d)]). j \<le> sqlite_sequence ?d1"
    using saved_interaction by blast
  with ih have "\<forall>j \<in> set (saved_ids [fst (interactionCreate usr c d)]).
      j \<le> sqlite_sequence (snd (run es ?d1))" by force
  with ih s1 show ?case
    unfolding e run_Cons fst_conv snd_conv
    by (subst saved_ids_Cons) auto
qed

section \<open>The claims\<close>

subsection \<open>C1: the limit of \<^verbatim>\<open>attend_list\<close>\<close>

text \<open>
  C1 says that the effective limit is the supplied limit clamped into \<open>[1, 20]\<close>, that the
  default 5 is taken only when the limit is left out, and that an explicit 0 therefore
  becomes 1. The handler clamps every supplied limit other than 0 (lemma
  \<open>effective_limit_clamp\<close>), and a negative one does become 1; but at 0 the \<^verbatim>\<open>||\<close> of
  \<^verbatim>\<open>getInteger("limit") || 5\<close> takes the default before the test \<^verbatim>\<open>limit < 1\<close> is reached.
  C1, at its own example: with the limit 0 supplied, the effective limit is 5, not 1.
\<close>

theorem effective_limit_zero: "effective_limit (Some 0) = 5"
  by (simp add: effective_limit_def or_int_def)

subsection \<open>C2: the reason stored when none is given\<close>

text \<open>
  C2: when \<^verbatim>\<open>attend_add\<close> is called without a reason, the row it stores has the reason
  \<^verbatim>\<open>"Not provided"\<close> if the status is \<^verbatim>\<open>absent\<close>, and \<^verbatim>\<open>NULL\<close> if the status is \<^verbatim>\<open>present\<close>. The
  statement gives the whole table after the call: the old rows followed by the new one.
\<close>

theorem attend_add_reason_omitted:
  "attendance (snd (attend_add usr subj ''absent'' None proofOpt now d)) =
     attendance d @
       [\<lparr>rowid = next_rowid d, userId = uid usr, userName = tag usr, subject = subj,
         status = ''absent'', reason = Some ''Not provided'',
         fileUrl = map_option url proofOpt, fileName = map_option name proofOpt,
         createdAt = now\<rparr>]
   \<and> attendance (snd (attend_add usr subj ''present'' None proofOpt now d)) =
     attendance d @
       [\<lparr>rowid = next_rowid d, userId = uid usr, userName = tag usr, subject = subj,
         status = ''present'', reason = None,
         fileUrl = map_option url proofOpt, fileName = map_option name proofOpt,
         createdAt = now\<rparr>]"
  by (simp add: attend_add_eq stored_reason_def or_str_def truthy_str_def)

subsection \<open>C3: an empty reason\<close>

text \<open>
  C3 says that a reason supplied as the empty string is stored as the empty string. It is
  not: the empty string is falsy, so \<^verbatim>\<open>reasonOpt || ...\<close> takes the right-hand side. C3 fails for
  an \<^verbatim>\<open>absent\<close> record added to the empty database with the reason \<^verbatim>\<open>""\<close>: the stored reason
  is not the empty string.
\<close>

theorem attend_add_empty_reason_not_verbatim:
  "reason (last (attendance (snd (attend_add \<lparr>uid = ''1'', tag = ''a#1''\<rparr> ''Math'' ''absent''
      (Some []) None ''2024-01-01T10:00:00.100Z'' db_init)))) \<noteq> Some []"
  by (simp add: attend_add_eq stored_reason_def or_str_def truthy_str_def)

text \<open>
  C3 as the handler has it: \<^verbatim>\<open>attend_add\<close> with the reason \<^verbatim>\<open>""\<close> does exactly what it does
  with the reason left out, in its reply and in the database: the row it stores has the
  reason \<^verbatim>\<open>"Not provided"\<close> if the status is \<^verbatim>\<open>absent\<close>, and \<^verbatim>\<open>NULL\<close> otherwise. Every reason
  that is supplied and not empty is stored as it is. Each part gives the whole table
  after the call.
\<close>

theorem attend_add_empty_reason:
  "attend_add usr subj stat (Some []) proofOpt now d = attend_add usr subj stat None proofOpt now d
   \<and> attendance (snd (attend_add usr subj ''absent'' (Some []) proofOpt now d)) =
       attendance d @
         [\<lparr>rowid = next_rowid d, userId = uid usr, userName = tag usr, subject = subj,
           status = ''absent'', reason = Some ''Not provided'',
           fileUrl = map_option url proofOpt, fileName = map_option name proofOpt,
           createdAt = now\<rparr>]
   \<and> (stat \<noteq> ''absent'' \<longrightarrow>
        attendance (snd (attend_add usr subj stat (Some []) proofOpt now d)) =
          attendance d @
            [\<lparr>rowid = next_rowid d, userId = uid usr, userName = tag usr, subject = subj,
              status = stat, reason = None,
              fileUrl = map_option url proofOpt, fileName = map_option name proofOpt,
              createdAt = now\<rparr>])
   \<and> (\<forall>s. s \<noteq> [] \<longrightarrow>
        attendance (snd (attend_add usr subj stat (Some s) proofOpt now d)) =
          attendance d @
            [\<lparr>rowid = next_rowid d, userId = uid usr, userName = tag usr, subject = subj,
              status = stat, reason = Some s,
              fileUrl = map_option url proofOpt, fileName = map_option name proofOpt,
              createdAt = now\<rparr>])"
  by (simp add: attend_add_eq stored_reason_def or_str_def truthy_str_def)

text \<open>
  C3, the amended statement on the empty database: the reason \<^verbatim>\<open>""\<close> with the status
  \<^verbatim>\<open>absent\<close> and with the status \<^verbatim>\<open>present\<close>, and the reason \<^verbatim>\<open>"ill"\<close>.
\<close>

theorem attend_add_empty_reason_witness:
  "attend_add \<lparr>uid = ''1'', tag = ''a#1''\<rparr> ''Math'' ''present'' (Some []) None
       ''2024-01-01T10:00:00.100Z'' db_init
     = attend_add \<lparr>uid = ''1'', tag = ''a#1''\<rparr> ''Math'' ''present'' None None
       ''2024-01-01T10:00:00.100Z'' db_init
   \<and> attendance (snd (attend_add \<lparr>uid = ''1'', tag = ''a#1''\<rparr> ''Math'' ''absent'' (Some []) None
       ''2024-01-01T10:00:00.100Z'' db_init)) =
       [\<lparr>rowid = 1, userId = ''1'', userName = ''a#1'', subject = ''Math'',
         status = ''absent'', reason = Some ''Not provided'', fileUrl = None,
         fileName = None, createdAt = ''2024-01-01T10:00:00.100Z''\<rparr>]
   \<and> ''present'' \<noteq> ''absent''
   \<and> attendance (snd (attend_add \<lparr>uid = ''1'', tag = ''a#1''\<rparr> ''Math'' ''present'' (Some []) None
       ''2024-01-01T10:00:00.100Z'' db_init)) =
       [\<lparr>rowid = 1, userId = ''1'', userName = ''a#1'', subject = ''Math'',
         status = ''present'', reason = None, fileUrl = None,
         fileName = None, createdAt = ''2024-01-01T10:00:00.100Z''\<rparr>]
   \<and> ''ill'' \<noteq> []
   \<and> attendance (snd (attend_add \<lparr>uid = ''1'', tag = ''a#1''\<rparr> ''Math'' ''present''
       (Some ''ill'') None ''2024-01-01T10:00:00.100Z'' db_init)) =
       [\<lparr>rowid = 1, userId = ''1'', userName = ''a#1'', subject = ''Math'',
         status = ''present'', reason = Some ''ill'', fileUrl = None,
         fileName = None, createdAt = ''2024-01-01T10:00:00.100Z''\<rparr>]"
proof -
  have n: "next_rowid db_init = 1"
    by (simp add: next_rowid_def db_init_def)
  have e: "attendance db_init = []"
    by (simp add: db_init_def)
  note t = attend_add_empty_reason [of "\<lparr>uid = ''1'', tag = ''a#1''\<rparr>" "''Math''" "''present''" None
      "''2024-01-01T10:00:00.100Z''" db_init]
  have same: "attend_add \<lparr>uid = ''1'', tag = ''a#1''\<rparr> ''Math'' ''present'' (Some []) None
       ''2024-01-01T10:00:00.100Z'' db_init
     = attend_add \<lparr>uid = ''1'', tag = ''a#1''\<rparr> ''Math'' ''present'' None None
       ''2024-01-01T10:00:00.100Z'' db_init"
    by (rule t [THEN conjunct1])
  have stored: "attendance (snd (attend_add \<lparr>uid = ''1'', tag = ''a#1''\<rparr> ''Math'' ''absent'' (Some []) None
       ''2024-01-01T10:00:00.100Z'' db_init)) =
       [\<lparr>rowid = 1, userId = ''1'', userName = ''a#1'', subject = ''Math'',
         status = ''absent'', reason = Some ''Not provided'', fileUrl = None,
         fileName = None, createdAt = ''2024-01-01T10:00:00.100Z''\<rparr>]
   \<and> ''present'' \<noteq> ''absent''
   \<and> attendance (snd (attend_add \<lparr>uid = ''1'', tag = ''a#1''\<rparr> ''Math'' ''present'' (Some []) None
       ''2024-01-01T10:00:00.100Z'' db_init)) =
       [\<lparr>rowid = 1, userId = ''1'', userName = ''a#1'', subject = ''Math'',
         status = ''present'', reason = None, fileUrl = None,
         fileName = None, createdAt = ''2024-01-01T10:00:00.100Z''\<rparr>]
   \<and> ''ill'' \<noteq> []
   \<and> attendance (snd (attend_add \<lparr>uid = ''1'', tag = ''a#1''\<rparr> ''Math'' ''present''
       (Some ''ill'') None ''2024-01-01T10:00:00.100Z'' db_init)) =
       [\<lparr>rowid = 1, userId = ''1'', userName = ''a#1'', subject = ''Math'',
         status = ''present'', reason = Some ''ill'', fileUrl = None,
         fileName = None, createdAt = ''2024-01-01T10:00:00.100Z''\<rparr>]"
    using t [THEN conjunct2] by (simp add: n e)
  from same stored show ?thesis by (rule conjI)
qed

subsection \<open>C4: \<^verbatim>\<open>attend_updatefile\<close> on a record that is not the caller's\<close>

text \<open>
  C4: when no row has both the given id and the caller as its owner, whether because the
  id is unknown or because the row with that id belongs to someone else,
  \<^verbatim>\<open>attend_updatefile\<close> replies with the one not-found message and leaves the database as it
  was.
\<close>

theorem attend_updatefile_not_found:
  "\<not> (\<exists>r \<in> set (attendance d). rowid r = i \<and> userId r = uid usr) \<Longrightarrow>
     attend_updatefile usr i proofAtt d = (NotFound, d)"
  using select_owned_None [of i "uid usr" d] by (simp add: attend_updatefile_def)

text \<open>C4 at a row with id 1 that belongs to user 1, when user 2 asks to update id 1.\<close>

theorem attend_updatefile_not_found_witness:
  "\<not> (\<exists>r \<in> set (attendance
        \<lparr>attendance =
           [\<lparr>rowid = 1, userId = ''1'', userName = ''a#1'', subject = ''Math'',
             status = ''absent'', reason = Some ''Not provided'', fileUrl = None,
             fileName = None, createdAt = ''2024-01-01T10:00:00.100Z''\<rparr>],
         sqlite_sequence = 1\<rparr>).
        rowid r = 1 \<and> userId r = uid \<lparr>uid = ''2'', tag = ''b#2''\<rparr>)
   \<and> attend_updatefile \<lparr>uid = ''2'', tag = ''b#2''\<rparr> 1 \<lparr>url = ''u'', name = ''f.pdf''\<rparr>
        \<lparr>attendance =
           [\<lparr>rowid = 1, userId = ''1'', userName = ''a#1'', subject = ''Math'',
             status = ''absent'', reason = Some ''Not provided'', fileUrl = None,
             fileName = None, createdAt = ''2024-01-01T10:00:00.100Z''\<rparr>],
         sqlite_sequence = 1\<rparr>
      = (NotFound,
         \<lparr>attendance =
            [\<lparr>rowid = 1, userId = ''1'', userName = ''a#1'', subject = ''Math'',
              status = ''absent'', reason = Some ''Not provided'', fileUrl = None,
              fileName = None, createdAt = ''2024-01-01T10:00:00.100Z''\<rparr>],
          sqlite_sequence = 1\<rparr>)"
proof -
  let ?d = "\<lparr>attendance =
           [\<lparr>rowid = 1, userId = ''1'', userName = ''a#1'', subject = ''Math'',
             status = ''absent'', reason = Some ''Not provided'', fileUrl = None,
             fileName = None, createdAt = ''2024-01-01T10:00:00.100Z''\<rparr>],
         sqlite_sequence = 1\<rparr>"
  have h: "\<not> (\<exists>r \<in> set (attendance ?d).
        rowid r = 1 \<and> userId r = uid \<lparr>uid = ''2'', tag = ''b#2''\<rparr>)"
    by simp
  from h attend_updatefile_not_found [OF h, of "\<lparr>url = ''u'', name = ''f.pdf''\<rparr>"]
  show ?thesis by (rule conjI)
qed

subsection \<open>C5: what \<^verbatim>\<open>attend_updatefile\<close> changes\<close>

text \<open>
  C5: when the table satisfies its primary key and holds a row with the given id owned by
  the caller, the database after \<^verbatim>\<open>attend_updatefile\<close> is the database before with one
  position \<open>k\<close> of the table overwritten, by the row that was there with \<open>fileUrl\<close> and
  \<open>fileName\<close> set to the attachment's url and name. That row is the caller's row with the
  given id; its other seven columns, every other row and \<^verbatim>\<open>sqlite_sequence\<close> are as before.
\<close>

theorem attend_updatefile_frame:
  assumes "primary_key d"
    and "\<exists>r \<in> set (attendance d). rowid r = i \<and> userId r = uid usr"
  shows "\<exists>k < length (attendance d).
           rowid (attendance d ! k) = i \<and> userId (attendance d ! k) = uid usr \<and>
           snd (attend_updatefile usr i proofAtt d) =
             d\<lparr>attendance := (attendance d)
                  [k := (attendance d ! k)\<lparr>fileUrl := Some (url proofAtt),
                                           fileName := Some (name proofAtt)\<rparr>]\<rparr>"
proof -
  from assms(2) obtain k where k: "k < length (attendance d)"
    and r: "rowid (attendance d ! k) = i" "userId (attendance d ! k) = uid usr"
    by (auto simp: in_set_conv_nth)
  from assms(2) have "select_owned i (uid usr) d \<noteq> None"
    by (simp add: select_owned_None)
  then have "snd (attend_updatefile usr i proofAtt d) =
      update_proof (url proofAtt) (name proofAtt) i d"
    by (rule attend_updatefile_found)
  also have "\<dots> = d\<lparr>attendance := (attendance d)
                  [k := update_row (url proofAtt) (name proofAtt) i (attendance d ! k)]\<rparr>"
    unfolding update_proof_def
    using update_one [OF assms(1) [unfolded primary_key_def] k r(1)] by simp
  also have "update_row (url proofAtt) (name proofAtt) i (attendance d ! k) =
      (attendance d ! k)\<lparr>fileUrl := Some (url proofAtt), fileName := Some (name proofAtt)\<rparr>"
    using r(1) by (rule update_row_hit)
  finally show ?thesis using k r by blast
qed

text \<open>C5 at a table of two rows, when user 2 attaches a file to the row with id 2.\<close>

theorem attend_updatefile_frame_witness:
  "primary_key
     \<lparr>attendance =
        [\<lparr>rowid = 1, userId = ''1'', userName = ''a#1'', subject = ''Math'',
          status = ''absent'', reason = Some ''Not provided'', fileUrl = None,
          fileName = None, createdAt = ''2024-01-01T10:00:00.100Z''\<rparr>,
         \<lparr>rowid = 2, userId = ''2'', userName = ''b#2'', subject = ''Math'',
          status = ''present'', reason = None, fileUrl = None,
          fileName = None, createdAt = ''2024-01-01T10:00:05.000Z''\<rparr>],
      sqlite_sequence = 2\<rparr>
   \<and> snd (attend_updatefile \<lparr>uid = ''2'', tag = ''b#2''\<rparr> 2 \<lparr>url = ''u'', name = ''f.pdf''\<rparr>
     \<lparr>attendance =
        [\<lparr>rowid = 1, userId = ''1'', userName = ''a#1'', subject = ''Math'',
          status = ''absent'', reason = Some ''Not provided'', fileUrl = None,
          fileName = None, createdAt = ''2024-01-01T10:00:00.100Z''\<rparr>,
         \<lparr>rowid = 2, userId = ''2'', userName = ''b#2'', subject = ''Math'',
          status = ''present'', reason = None, fileUrl = None,
          fileName = None, createdAt = ''2024-01-01T10:00:05.000Z''\<rparr>],
      sqlite_sequence = 2\<rparr>)
   = \<lparr>attendance =
        [\<lparr>rowid = 1, userId = ''1'', userName = ''a#1'', subject = ''Math'',
          status = ''absent'', reason = Some ''Not provided'', fileUrl = None,
          fileName = None, createdAt = ''2024-01-01T10:00:00.100Z''\<rparr>,
         \<lparr>rowid = 2, userId = ''2'', userName = ''b#2'', subject = ''Math'',
          status = ''present'', reason = None, fileUrl = Some ''u'',
          fileName = Some ''f.pdf'', createdAt = ''2024-01-01T10:00:05.000Z''\<rparr>],
      sqlite_sequence = 2\<rparr>"
proof -
  let ?d = "\<lparr>attendance =
        [\<lparr>rowid = 1, userId = ''1'', userName = ''a#1'', subject = ''Math'',
          status = ''absent'', reason = Some ''Not provided'', fileUrl = None,
          fileName = None, createdAt = ''2024-01-01T10:00:00.100Z''\<rparr>,
         \<lparr>rowid = 2, userId = ''2'', userName = ''b#2'', subject = ''Math'',
          status = ''present'', reason = None, fileUrl = None,
          fileName = None, createdAt = ''2024-01-01T10:00:05.000Z''\<rparr>],
      sqlite_sequence = 2\<rparr>"
  have pk: "primary_key ?d" by (simp add: primary_key_def)
  have own: "\<exists>r \<in> set (attendance ?d). rowid r = 2 \<and> userId r = uid \<lparr>uid = ''2'', tag = ''b#2''\<rparr>"
    by simp
  from attend_updatefile_frame [OF pk own, of "\<lparr>url = ''u'', name = ''f.pdf''\<rparr>"]
  obtain k where k: "k < length (attendance ?d)" "rowid (attendance ?d ! k) = 2"
    and upd: "snd (attend_updatefile \<lparr>uid = ''2'', tag = ''b#2''\<rparr> 2
                 \<lparr>url = ''u'', name = ''f.pdf''\<rparr> ?d) =
       ?d\<lparr>attendance := (attendance ?d)
            [k := (attendance ?d ! k)\<lparr>fileUrl := Some (url \<lparr>url = ''u'', name = ''f.pdf''\<rparr>),
                     fileName := Some (name \<lparr>url = ''u'', name = ''f.pdf''\<rparr>)\<rparr>]\<rparr>"
    by blast
  from k have "k = 1" by (cases k) auto
  with upd pk show ?thesis by simp
qed

subsection \<open>C6: two updates of the same record\<close>

text \<open>
  C6: when the caller owns a row with the given id, two calls of \<^verbatim>\<open>attend_updatefile\<close> on
  that id, first with the attachment \<open>p1\<close> and then with \<open>p2\<close>, leave the database that the
  call with \<open>p2\<close> alone leaves: nothing of \<open>p1\<close> is kept. In it there is a row with that id,
  and every row with that id has the url and name of \<open>p2\<close>.
\<close>

theorem attend_updatefile_last_write:
  assumes "\<exists>r \<in> set (attendance d). rowid r = i \<and> userId r = uid usr"
  shows "snd (attend_updatefile usr i p2 (snd (attend_updatefile usr i p1 d))) =
           snd (attend_updatefile usr i p2 d)
       \<and> (\<exists>r \<in> set (attendance (snd (attend_updatefile usr i p2 (snd (attend_updatefile usr i p1 d))))).
             rowid r = i)
       \<and> (\<forall>r \<in> set (attendance (snd (attend_updatefile usr i p2 (snd (attend_updatefile usr i p1 d))))).
             rowid r = i \<longrightarrow> fileUrl r = Some (url p2) \<and> fileName r = Some (name p2))"
proof -
  let ?u1 = "update_proof (url p1) (name p1) i d"
  let ?u2 = "update_proof (url p2) (name p2) i d"
  from assms have r: "select_owned i (uid usr) d \<noteq> None"
    by (simp add: select_owned_None)
  then have d1: "snd (attend_updatefile usr i p1 d) = ?u1"
    by (rule attend_updatefile_found)
  from r have "select_owned i (uid usr) ?u1 \<noteq> None"
    by (simp only: select_owned_update not_False_eq_True)
  then have "snd (attend_updatefile usr i p2 ?u1) = update_proof (url p2) (name p2) i ?u1"
    by (rule attend_updatefile_found)
  then have fin: "snd (attend_updatefile usr i p2 (snd (attend_updatefile usr i p1 d))) = ?u2"
    by (simp only: d1 update_proof_twice)
  from r have d3: "snd (attend_updatefile usr i p2 d) = ?u2"
    by (rule attend_updatefile_found)
  from assms have "i \<in> rowid ` set (attendance d)" by blast
  then have "i \<in> rowid ` set (attendance ?u2)"
    by (simp only: update_proof_keeps_rowids)
  then have ex: "\<exists>r \<in> set (attendance ?u2). rowid r = i" by blast
  have al: "\<forall>r \<in> set (attendance ?u2).
      rowid r = i \<longrightarrow> fileUrl r = Some (url p2) \<and> fileName r = Some (name p2)"
    using update_proof_sets_proof [of _ "url p2" "name p2" i d] by blast
  show ?thesis unfolding fin d3 using ex al by blast
qed

text \<open>C6 at a record added with a file, then updated with two other files in turn.\<close>

theorem attend_updatefile_last_write_witness:
  "(\<exists>r \<in> set (attendance (snd (run
        [(\<lparr>uid = ''1'', tag = ''a#1''\<rparr>,
          Attend_add ''Physics'' ''present'' None (Some \<lparr>url = ''u'', name = ''f.pdf''\<rparr>)
            ''2024-01-01T10:00:00.100Z'')] db_init))).
        rowid r = 1 \<and> userId r = uid \<lparr>uid = ''1'', tag = ''a#1''\<rparr>)
   \<and> snd (attend_updatefile \<lparr>uid = ''1'', tag = ''a#1''\<rparr> 1 \<lparr>url = ''u2'', name = ''f2.pdf''\<rparr>
       (snd (attend_updatefile \<lparr>uid = ''1'', tag = ''a#1''\<rparr> 1 \<lparr>url = ''u1'', name = ''f1.pdf''\<rparr>
         (snd (run
           [(\<lparr>uid = ''1'', tag = ''a#1''\<rparr>,
             Attend_add ''Physics'' ''present'' None (Some \<lparr>url = ''u'', name = ''f.pdf''\<rparr>)
               ''2024-01-01T10:00:00.100Z'')] db_init)))))
     = \<lparr>attendance =
          [\<lparr>rowid = 1, userId = ''1'', userName = ''a#1'', subject = ''Physics'',
            status = ''present'', reason = None, fileUrl = Some ''u2'',
            fileName = Some ''f2.pdf'', createdAt = ''2024-01-01T10:00:00.100Z''\<rparr>],
        sqlite_sequence = 1\<rparr>"
proof -
  let ?d = "snd (run
        [(\<lparr>uid = ''1'', tag = ''a#1''\<rparr>,
          Attend_add ''Physics'' ''present'' None (Some \<lparr>url = ''u'', name = ''f.pdf''\<rparr>)
            ''2024-01-01T10:00:00.100Z'')] db_init)"
  have own: "\<exists>r \<in> set (attendance ?d). rowid r = 1 \<and> userId r = uid \<lparr>uid = ''1'', tag = ''a#1''\<rparr>"
    by code_simp
  have one: "snd (attend_updatefile \<lparr>uid = ''1'', tag = ''a#1''\<rparr> 1 \<lparr>url = ''u2'', name = ''f2.pdf''\<rparr> ?d)
     = \<lparr>attendance =
          [\<lparr>rowid = 1, userId = ''1'', userName = ''a#1'', subject = ''Physics'',
            status = ''present'', reason = None, fileUrl = Some ''u2'',
            fileName = Some ''f2.pdf'', createdAt = ''2024-01-01T10:00:00.100Z''\<rparr>],
        sqlite_sequence = 1\<rparr>"
    by code_simp
  from attend_updatefile_last_write [OF own, of "\<lparr>url = ''u2'', name = ''f2.pdf''\<rparr>"
      "\<lparr>url = ''u1'', name = ''f1.pdf''\<rparr>"] own one
  show ?thesis by (simp only: simp_thms)
qed

subsection \<open>C7: \<^verbatim>\<open>attend_list\<close> shows only the caller's records\<close>

text \<open>
  C7: after any run of commands by any users, from any database, every row that
  \<^verbatim>\<open>attend_list\<close> returns has the caller as its owner.
\<close>

theorem attend_list_only_own:
  "\<forall>r \<in> set (listed (fst (attend_list usr limitOpt (snd (run es d))))). userId r = uid usr"
  by (simp add: listed_attend_list select_recent_owner)

text \<open>C7 after one record of user 1 and one of user 2, when user 1 lists.\<close>

theorem attend_list_only_own_witness:
  "\<lparr>rowid = 1, userId = ''1'', userName = ''a#1'', subject = ''Math'',
     status = ''absent'', reason = Some ''Not provided'', fileUrl = None,
     fileName = None, createdAt = ''2024-01-01T10:00:00.100Z''\<rparr>
   \<in> set (listed (fst (attend_list \<lparr>uid = ''1'', tag = ''a#1''\<rparr> None (snd (run
        [(\<lparr>uid = ''1'', tag = ''a#1''\<rparr>,
          Attend_add ''Math'' ''absent'' None None ''2024-01-01T10:00:00.100Z''),
         (\<lparr>uid = ''2'', tag = ''b#2''\<rparr>,
          Attend_add ''Math'' ''present'' None None ''2024-01-01T10:00:05.000Z'')] db_init)))))
   \<and> listed (fst (attend_list \<lparr>uid = ''1'', tag = ''a#1''\<rparr> None (snd (run
        [(\<lparr>uid = ''1'', tag = ''a#1''\<rparr>,
          Attend_add ''Math'' ''absent'' None None ''2024-01-01T10:00:00.100Z''),
         (\<lparr>uid = ''2'', tag = ''b#2''\<rparr>,
          Attend_add ''Math'' ''present'' None None ''2024-01-01T10:00:05.000Z'')] db_init))))
     = [\<lparr>rowid = 1, userId = ''1'', userName = ''a#1'', subject = ''Math'',
         status = ''absent'', reason = Some ''Not provided'', fileUrl = None,
         fileName = None, createdAt = ''2024-01-01T10:00:00.100Z''\<rparr>]"
proof -
  let ?l = "listed (fst (attend_list \<lparr>uid = ''1'', tag = ''a#1''\<rparr> None (snd (run
        [(\<lparr>uid = ''1'', tag = ''a#1''\<rparr>,
          Attend_add ''Math'' ''absent'' None None ''2024-01-01T10:00:00.100Z''),
         (\<lparr>uid = ''2'', tag = ''b#2''\<rparr>,
          Attend_add ''Math'' ''present'' None None ''2024-01-01T10:00:05.000Z'')] db_init))))"
  have l: "?l = [\<lparr>rowid = 1, userId = ''1'', userName = ''a#1'', subject = ''Math'',
         status = ''absent'', reason = Some ''Not provided'', fileUrl = None,
         fileName = None, createdAt = ''2024-01-01T10:00:00.100Z''\<rparr>]"
    by code_simp
  from attend_list_only_own [of "\<lparr>uid = ''1'', tag = ''a#1''\<rparr>" None
      "[(\<lparr>uid = ''1'', tag = ''a#1''\<rparr>,
          Attend_add ''Math'' ''absent'' None None ''2024-01-01T10:00:00.100Z''),
         (\<lparr>uid = ''2'', tag = ''b#2''\<rparr>,
          Attend_add ''Math'' ''present'' None None ''2024-01-01T10:00:05.000Z'')]" db_init] l
  show ?thesis by simp
qed

subsection \<open>C8: the order of \<^verbatim>\<open>attend_list\<close>\<close>

text \<open>
  What the query does return: as many rows as the effective limit, or all the caller's
  rows if these are fewer, each a row of the table owned by the caller. They are the first
  rows of the caller's rows sorted by \<^verbatim>\<open>datetime(createdAt)\<close>: the listing followed by some
  rows \<open>rest\<close> is in descending order of that key, and holds for every value of the key
  exactly the caller's rows with it, in the order of insertion.
\<close>

lemma select_recent_sorted:
  "length (listed (fst (attend_list usr limitOpt d))) =
      min (nat (effective_limit limitOpt))
        (length (filter (\<lambda>r. userId r = uid usr) (attendance d)))
   \<and> (\<forall>r \<in> set (listed (fst (attend_list usr limitOpt d))).
        r \<in> set (attendance d) \<and> userId r = uid usr)
   \<and> (\<exists>rest.
        sorted_wrt (\<lambda>a b. datetime (createdAt b) \<le> datetime (createdAt a))
          (listed (fst (attend_list usr limitOpt d)) @ rest)
      \<and> (\<forall>c. filter (\<lambda>r. datetime (createdAt r) = c)
                (listed (fst (attend_list usr limitOpt d)) @ rest) =
              filter (\<lambda>r. datetime (createdAt r) = c)
                (filter (\<lambda>r. userId r = uid usr) (attendance d))))"
proof -
  let ?key = "\<lambda>r. datetime (createdAt r)"
  let ?own = "filter (\<lambda>r. userId r = uid usr) (attendance d)"
  let ?n = "effective_limit limitOpt"
  let ?all = "order_by_desc ?key ?own"
  have n: "0 \<le> ?n" using effective_limit_range [of limitOpt] by simp
  then have rs: "listed (fst (attend_list usr limitOpt d)) = take (nat ?n) ?all"
    by (simp add: listed_attend_list select_recent_def sql_limit_def)
  have len: "length (take (nat ?n) ?all) = min (nat ?n) (length ?own)"
    by (simp add: length_order_by_desc)
  have "set (take (nat ?n) ?all) \<subseteq> set ?all" by (rule set_take_subset)
  then have own: "\<forall>r \<in> set (take (nat ?n) ?all). r \<in> set (attendance d) \<and> userId r = uid usr"
    by (auto simp: set_order_by_desc)
  have whole: "take (nat ?n) ?all @ drop (nat ?n) ?all = ?all"
    by (rule append_take_drop_id)
  have srt: "sorted_wrt (\<lambda>a b. ?key b \<le> ?key a) (take (nat ?n) ?all @ drop (nat ?n) ?all)"
    unfolding whole by (rule sorted_order_by_desc)
  have stb: "\<forall>c. filter (\<lambda>r. ?key r = c) (take (nat ?n) ?all @ drop (nat ?n) ?all) =
      filter (\<lambda>r. ?key r = c) ?own"
    unfolding whole by (simp only: stable_order_by_desc simp_thms)
  from srt stb have "\<exists>rest. sorted_wrt (\<lambda>a b. ?key b \<le> ?key a) (take (nat ?n) ?all @ rest)
      \<and> (\<forall>c. filter (\<lambda>r. ?key r = c) (take (nat ?n) ?all @ rest) = filter (\<lambda>r. ?key r = c) ?own)"
    by (intro exI [of _ "drop (nat ?n) ?all"] conjI)
  with len own show ?thesis unfolding rs by (intro conjI)
qed

text \<open>
  C8 says that the listing holds at most the effective limit many records of the caller,
  ordered by \<open>createdAt\<close>, most recent first. The bound and the owner hold (lemma
  \<open>select_recent_sorted\<close>); the order does not. The query orders by
  \<^verbatim>\<open>datetime(createdAt) DESC\<close> to put the most recent first, but \<^verbatim>\<open>datetime\<close> drops the
  milliseconds that \<^verbatim>\<open>toISOString\<close> wrote, so the records of one second are a tie and come
  out in the order of insertion, the oldest first.
  C8, at a user who adds a record at 10:00:00.100 and another at 10:00:00.900 and then
  lists: without a limit the listing is the older record, id 1, and then the newer, id 2,
  in ascending order of \<open>createdAt\<close>; with the limit 1 the listing, announced as the last
  record, is the older record, and the newer one is left out.
\<close>

theorem attend_list_same_second:
  "map rowid (listed (fst (attend_list \<lparr>uid = ''1'', tag = ''a#1''\<rparr> None (snd (run
      [(\<lparr>uid = ''1'', tag = ''a#1''\<rparr>,
        Attend_add ''Math'' ''present'' None None ''2024-01-01T10:00:00.100Z''),
       (\<lparr>uid = ''1'', tag = ''a#1''\<rparr>,
        Attend_add ''Physics'' ''present'' None None ''2024-01-01T10:00:00.900Z'')]
      db_init))))) = [1, 2]
   \<and> map createdAt (listed (fst (attend_list \<lparr>uid = ''1'', tag = ''a#1''\<rparr> None (snd (run
      [(\<lparr>uid = ''1'', tag = ''a#1''\<rparr>,
        Attend_add ''Math'' ''present'' None None ''2024-01-01T10:00:00.100Z''),
       (\<lparr>uid = ''1'', tag = ''a#1''\<rparr>,
        Attend_add ''Physics'' ''present'' None None ''2024-01-01T10:00:00.900Z'')]
      db_init))))) = [''2024-01-01T10:00:00.100Z'', ''2024-01-01T10:00:00.900Z'']
   \<and> ''2024-01-01T10:00:00.100Z'' < ''2024-01-01T10:00:00.900Z''
   \<and> sorted_wrt (\<lambda>a b. createdAt b \<le> createdAt a)
        (listed (fst (attend_list \<lparr>uid = ''1'', tag = ''a#1''\<rparr> None (snd (run
          [(\<lparr>uid = ''1'', tag = ''a#1''\<rparr>,
            Attend_add ''Math'' ''present'' None None ''2024-01-01T10:00:00.100Z''),
           (\<lparr>uid = ''1'', tag = ''a#1''\<rparr>,
            Attend_add ''Physics'' ''present'' None None ''2024-01-01T10:00:00.900Z'')]
          db_init))))) = False
   \<and> map rowid (listed (fst (attend_list \<lparr>uid = ''1'', tag = ''a#1''\<rparr> (Some 1) (snd (run
      [(\<lparr>uid = ''1'', tag = ''a#1''\<rparr>,
        Attend_add ''Math'' ''present'' None None ''2024-01-01T10:00:00.100Z''),
       (\<lparr>uid = ''1'', tag = ''a#1''\<rparr>,
        Attend_add ''Physics'' ''present'' None None ''2024-01-01T10:00:00.900Z'')]
      db_init))))) = [1]"
  by code_simp

subsection \<open>C9: ids grow\<close>

text \<open>
  C9: after any run of commands, from any database, the id that an \<^verbatim>\<open>attend_add\<close>
  reports is greater than every id that an \<^verbatim>\<open>attend_add\<close> of the run has reported, than the
  id of every row in the table, and than the \<^verbatim>\<open>sqlite_sequence\<close> entry, which is the largest
  id given out before the run.
\<close>

theorem attend_add_id_fresh:
  assumes "fst (attend_add usr subj stat reasonOpt proofOpt now (snd (run es d))) =
             Saved i s1 s2 o1 o2"
  shows "(\<forall>j \<in> set (saved_ids (fst (run es d))). j < i)
       \<and> (\<forall>r \<in> set (attendance (snd (run es d))). rowid r < i)
       \<and> sqlite_sequence (snd (run es d)) < i"
proof -
  from assms have i: "i = next_rowid (snd (run es d))" by (simp add: attend_add_eq)
  have "j < i" if "j \<in> set (saved_ids (fst (run es d)))" for j
  proof -
    from that have "j \<le> sqlite_sequence (snd (run es d))"
      using run_seq [of d es] by blast
    with next_rowid_seq [of "snd (run es d)"] show ?thesis unfolding i by linarith
  qed
  moreover have "rowid r < i" if "r \<in> set (attendance (snd (run es d)))" for r
    unfolding i using that by (rule next_rowid_rows)
  moreover have "sqlite_sequence (snd (run es d)) < i"
    unfolding i by (rule next_rowid_seq)
  ultimately show ?thesis by blast
qed

text \<open>C9 at the third \<^verbatim>\<open>attend_add\<close> on a new database: its id is 3, after 1 and 2.\<close>

theorem attend_add_id_fresh_witness:
  "fst (attend_add \<lparr>uid = ''1'', tag = ''a#1''\<rparr> ''Art'' ''present'' None None
      ''2024-01-01T10:00:07.000Z'' (snd (run
        [(\<lparr>uid = ''1'', tag = ''a#1''\<rparr>,
          Attend_add ''Math'' ''absent'' None None ''2024-01-01T10:00:00.100Z''),
         (\<lparr>uid = ''2'', tag = ''b#2''\<rparr>,
          Attend_add ''Math'' ''present'' None None ''2024-01-01T10:00:05.000Z'')] db_init)))
     = Saved 3 ''Art'' ''present'' None None
   \<and> saved_ids (fst (run
        [(\<lparr>uid = ''1'', tag = ''a#1''\<rparr>,
          Attend_add ''Math'' ''absent'' None None ''2024-01-01T10:00:00.100Z''),
         (\<lparr>uid = ''2'', tag = ''b#2''\<rparr>,
          Attend_add ''Math'' ''present'' None None ''2024-01-01T10:00:05.000Z'')] db_init))
     = [1, 2]
   \<and> (1 :: int) < 3 \<and> (2 :: int) < 3"
proof -
  let ?es = "[(\<lparr>uid = ''1'', tag = ''a#1''\<rparr>,
          Attend_add ''Math'' ''absent'' None None ''2024-01-01T10:00:00.100Z''),
         (\<lparr>uid = ''2'', tag = ''b#2''\<rparr>,
          Attend_add ''Math'' ''present'' None None ''2024-01-01T10:00:05.000Z'')]"
  have a: "fst (attend_add \<lparr>uid = ''1'', tag = ''a#1''\<rparr> ''Art'' ''present'' None None
      ''2024-01-01T10:00:07.000Z'' (snd (run ?es db_init))) = Saved 3 ''Art'' ''present'' None None"
    by code_simp
  have b: "saved_ids (fst (run ?es db_init)) = [1, 2]"
    by code_simp
  from attend_add_id_fresh [OF a] a b show ?thesis by simp
qed

subsection \<open>C10: \<^verbatim>\<open>attend_add\<close> only adds\<close>

text \<open>
  C10: the table after \<^verbatim>\<open>attend_add\<close> is the table before, every row in its place and
  unchanged, followed by one new row, whose id is the id of no row that was there.
\<close>

theorem attend_add_frame:
  "\<exists>r. attendance (snd (attend_add usr subj stat reasonOpt proofOpt now d)) = attendance d @ [r]
      \<and> rowid r \<notin> rowid ` set (attendance d)"
  by (simp add: attend_add_eq next_rowid_fresh)

end
